theory Spec2Isabelle
  imports Complex_Main
begin

section \<open>JavaScript numbers\<close>

text \<open>
  The slider computes with JavaScript numbers. A number is modelled as an exact rational
  or one of the three special values of IEEE arithmetic. Division by zero, the products
  and sums of infinities, and the comparisons with \<open>NaN\<close> follow ECMAScript. Two things
  are idealised: finite results are exact (the rounding of double precision is not
  modelled), and there is one zero, which divides like \<open>+0\<close>. Every divisor of the slider
  is a difference \<open>a - b\<close>, which is \<open>+0\<close> when \<open>a\<close> and \<open>b\<close> are equal and finite.
\<close>

datatype jsnum = Num rat | PosInf | NegInf | NaN

fun isFinite :: "jsnum \<Rightarrow> bool" where
  "isFinite (Num a) = True"
| "isFinite PosInf = False"
| "isFinite NegInf = False"
| "isFinite NaN = False"

fun jneg :: "jsnum \<Rightarrow> jsnum" where
  "jneg (Num a) = Num (- a)"
| "jneg PosInf = NegInf"
| "jneg NegInf = PosInf"
| "jneg NaN = NaN"

text \<open>\<open>a + b\<close>\<close>

fun jadd :: "jsnum \<Rightarrow> jsnum \<Rightarrow> jsnum" where
  "jadd (Num a) (Num b) = Num (a + b)"
| "jadd (Num a) PosInf = PosInf"
| "jadd (Num a) NegInf = NegInf"
| "jadd PosInf (Num b) = PosInf"
| "jadd PosInf PosInf = PosInf"
| "jadd PosInf NegInf = NaN"
| "jadd NegInf (Num b) = NegInf"
| "jadd NegInf PosInf = NaN"
| "jadd NegInf NegInf = NegInf"
| "jadd NaN b = NaN"
| "jadd a NaN = NaN"

text \<open>\<open>a - b\<close>\<close>

definition jsub :: "jsnum \<Rightarrow> jsnum \<Rightarrow> jsnum" where
  "jsub a b = jadd a (jneg b)"

text \<open>An infinity of the sign of \<open>a\<close>, which is not zero.\<close>

definition signedInf :: "rat \<Rightarrow> jsnum" where
  "signedInf a = (if 0 < a then PosInf else NegInf)"

text \<open>\<open>a * b\<close>: an infinity times zero is \<open>NaN\<close>.\<close>

fun jmul :: "jsnum \<Rightarrow> jsnum \<Rightarrow> jsnum" where
  "jmul (Num a) (Num b) = Num (a * b)"
| "jmul (Num a) PosInf = (if a = 0 then NaN else signedInf a)"
| "jmul (Num a) NegInf = (if a = 0 then NaN else signedInf (- a))"
| "jmul PosInf (Num b) = (if b = 0 then NaN else signedInf b)"
| "jmul NegInf (Num b) = (if b = 0 then NaN else signedInf (- b))"
| "jmul PosInf PosInf = PosInf"
| "jmul PosInf NegInf = NegInf"
| "jmul NegInf PosInf = NegInf"
| "jmul NegInf NegInf = PosInf"
| "jmul NaN b = NaN"
| "jmul a NaN = NaN"

text \<open>
  \<open>a / b\<close>: zero by zero and infinity by infinity are \<open>NaN\<close>; a nonzero number by zero
  is an infinity; a finite number by an infinity is zero.
\<close>

fun jdiv :: "jsnum \<Rightarrow> jsnum \<Rightarrow> jsnum" where
  "jdiv (Num a) (Num b) =
     (if b = 0 then (if a = 0 then NaN else signedInf a) else Num (a / b))"
| "jdiv (Num a) PosInf = Num 0"
| "jdiv (Num a) NegInf = Num 0"
| "jdiv PosInf (Num b) = (if 0 \<le> b then PosInf else NegInf)"
| "jdiv NegInf (Num b) = (if 0 \<le> b then NegInf else PosInf)"
| "jdiv PosInf PosInf = NaN"
| "jdiv PosInf NegInf = NaN"
| "jdiv NegInf PosInf = NaN"
| "jdiv NegInf NegInf = NaN"
| "jdiv NaN b = NaN"
| "jdiv a NaN = NaN"

text \<open>\<open>a < b\<close>: false as soon as one side is \<open>NaN\<close>.\<close>

fun jlt :: "jsnum \<Rightarrow> jsnum \<Rightarrow> bool" where
  "jlt (Num a) (Num b) = (a < b)"
| "jlt (Num a) PosInf = True"
| "jlt (Num a) NegInf = False"
| "jlt PosInf b = False"
| "jlt NegInf (Num b) = True"
| "jlt NegInf PosInf = True"
| "jlt NegInf NegInf = False"
| "jlt NaN b = False"
| "jlt a NaN = False"

text \<open>\<open>a === b\<close>: \<open>NaN\<close> is not equal to itself.\<close>

definition jeq :: "jsnum \<Rightarrow> jsnum \<Rightarrow> bool" where
  "jeq a b = (a = b \<and> a \<noteq> NaN)"

text \<open>\<open>a > b\<close>, \<open>a <= b\<close>, \<open>a >= b\<close>\<close>

definition jgt :: "jsnum \<Rightarrow> jsnum \<Rightarrow> bool" where
  "jgt a b = jlt b a"

definition jle :: "jsnum \<Rightarrow> jsnum \<Rightarrow> bool" where
  "jle a b = (jlt a b \<or> jeq a b)"

definition jge :: "jsnum \<Rightarrow> jsnum \<Rightarrow> bool" where
  "jge a b = jle b a"

text \<open>\<open>Math.max(a, b)\<close> and \<open>Math.min(a, b)\<close>: \<open>NaN\<close> if an argument is \<open>NaN\<close>.\<close>

definition jmax :: "jsnum \<Rightarrow> jsnum \<Rightarrow> jsnum" where
  "jmax a b = (if a = NaN \<or> b = NaN then NaN else if jlt a b then b else a)"

definition jmin :: "jsnum \<Rightarrow> jsnum \<Rightarrow> jsnum" where
  "jmin a b = (if a = NaN \<or> b = NaN then NaN else if jlt b a then b else a)"

text \<open>\<open>Math.abs(a)\<close>\<close>

fun jabs :: "jsnum \<Rightarrow> jsnum" where
  "jabs (Num a) = Num \<bar>a\<bar>"
| "jabs PosInf = PosInf"
| "jabs NegInf = PosInf"
| "jabs NaN = NaN"

text \<open>\<open>Math.round(a)\<close>: the nearest integer, a tie going up.\<close>

fun jround :: "jsnum \<Rightarrow> jsnum" where
  "jround (Num a) = Num (of_int \<lfloor>a + 1 / 2\<rfloor>)"
| "jround PosInf = PosInf"
| "jround NegInf = NegInf"
| "jround NaN = NaN"

text \<open>The truth value of a number in a condition: zero and \<open>NaN\<close> are false.\<close>

definition truthy :: "jsnum \<Rightarrow> bool" where
  "truthy a = (a \<noteq> Num 0 \<and> a \<noteq> NaN)"

text \<open>A field that may be \<open>undefined\<close>, read as a number: \<open>undefined\<close> converts to \<open>NaN\<close>.\<close>

definition toNumber :: "jsnum option \<Rightarrow> jsnum" where
  "toNumber a = (case a of None \<Rightarrow> NaN | Some v \<Rightarrow> v)"


section \<open>The slider's data\<close>

text \<open>
  \<open>SliderProps\<close>, the configuration. \<open>propValue\<close> is the prop \<open>value\<close>; \<open>isRTL\<close> is the
  flag \<open>Constants.isRTL\<close> of the platform, which the component reads.
\<close>

record props =
  propValue :: jsnum
  initialMinimumValue :: jsnum
  initialMaximumValue :: jsnum
  minimumValue :: jsnum
  maximumValue :: jsnum
  step :: jsnum
  disabled :: bool
  useRange :: bool
  disableRTL :: bool
  isRTL :: bool

definition defaultProps :: props where
  "defaultProps =
     \<lparr>propValue = Num 0, initialMinimumValue = Num 0, initialMaximumValue = Num 1,
      minimumValue = Num 0, maximumValue = Num 1, step = Num 0,
      disabled = False, useRange = False, disableRTL = False, isRTL = False\<rparr>"

record measurements =
  width :: jsnum
  height :: jsnum

datatype thumbRef = Thumb | MinThumb

datatype measuredVariableName = ContainerSize | TrackSize | ThumbSize

text \<open>The calls the component makes to the host's callbacks and to the announcer.\<close>

datatype call =
    OnSeekStart
  | OnSeekEnd
  | OnValueChange jsnum
  | OnRangeChange jsnum jsnum
  | Announce jsnum

text \<open>
  The component instance: the React state (\<open>st_containerSize\<close>, \<open>st_trackSize\<close>,
  \<open>st_thumbSize\<close>, \<open>measureCompleted\<close>) and the private fields. \<open>pos_x\<close> and \<open>pos_x_min\<close>
  are \<open>_x\<close> and \<open>_x_min\<close>; \<open>thumbStyles_left\<close>, \<open>minThumbStyles_left\<close>,
  \<open>minTrackStyles_width\<close> and \<open>minTrackStyles_left\<close> are the fields of \<open>_thumbStyles\<close>,
  \<open>_minThumbStyles\<close> and \<open>_minTrackStyles\<close>, \<open>None\<close> while undefined. \<open>mounted\<close> says that
  the component is rendered, so that its refs are set. \<open>calls\<close> collects the calls made,
  the latest last. \<open>setNativeProps\<close> shows the styles and changes no field.
\<close>

record slider =
  st_containerSize :: measurements
  st_trackSize :: measurements
  st_thumbSize :: measurements
  measureCompleted :: bool
  activeThumbRef :: thumbRef
  pos_x :: jsnum
  pos_x_min :: jsnum
  lastDx :: jsnum
  initialValue :: jsnum
  minInitialValue :: jsnum
  lastValue :: jsnum
  lastMinValue :: jsnum
  thumbStyles_left :: "jsnum option"
  minThumbStyles_left :: "jsnum option"
  minTrackStyles_width :: "jsnum option"
  minTrackStyles_left :: "jsnum option"
  initialThumbSize :: measurements
  containerSize :: "measurements option"
  trackSize :: "measurements option"
  thumbSize :: "measurements option"
  mounted :: bool
  calls :: "call list"

section \<open>Values and offsets\<close>

definition getValueInRange :: "props \<Rightarrow> jsnum \<Rightarrow> jsnum" where
  "getValueInRange p v =
     (if jlt v (minimumValue p) then minimumValue p
      else if jgt v (maximumValue p) then maximumValue p
      else v)"

definition getRoundedValue :: "props \<Rightarrow> jsnum \<Rightarrow> jsnum" where
  "getRoundedValue p v =
     (let v' = getValueInRange p v
      in if jgt (step p) (Num 0) then jmul (jround (jdiv v' (step p))) (step p) else v')"

definition getRange :: "props \<Rightarrow> jsnum" where
  "getRange p = jsub (maximumValue p) (minimumValue p)"

definition getXForValue :: "props \<Rightarrow> slider \<Rightarrow> jsnum \<Rightarrow> jsnum" where
  "getXForValue p s v =
     (let range = getRange p;
          relativeValue = jsub (minimumValue p) v;
          v' = (if jlt (minimumValue p) (Num 0) then jabs relativeValue
                else jsub v (minimumValue p));
          ratio = jdiv v' range
      in jmul ratio (width (st_trackSize s)))"

definition getValueForX :: "props \<Rightarrow> slider \<Rightarrow> jsnum \<Rightarrow> jsnum" where
  "getValueForX p s xx =
     (let ratio = jdiv xx (jsub (width (st_trackSize s))
                                (jdiv (width (initialThumbSize s)) (Num 2)));
          range = getRange p
      in if truthy (step p)
         then jmax (minimumValue p)
                (jmin (maximumValue p)
                   (jadd (minimumValue p)
                      (jmul (jround (jdiv (jmul ratio range) (step p))) (step p))))
         else jmax (minimumValue p)
                (jmin (maximumValue p) (jadd (jmul ratio range) (minimumValue p))))"

text \<open>\<open>checkProps\<close> only warns: the warnings it prints.\<close>

definition checkProps :: "props \<Rightarrow> string list" where
  "checkProps p =
     (if jge (minimumValue p) (maximumValue p)
      then [''Slider minimumValue must be lower than maximumValue''] else []) @
     (if jlt (propValue p) (minimumValue p) \<or> jgt (propValue p) (maximumValue p)
      then [''Slider value is not in range''] else [])"

section \<open>The active thumb\<close>

text \<open>The getter \<open>disableRTL\<close>: a range slider never forces left-to-right.\<close>

definition get_disableRTL :: "props \<Rightarrow> bool" where
  "get_disableRTL p = (if useRange p then False else disableRTL p)"

definition shouldForceLTR :: "props \<Rightarrow> bool" where
  "shouldForceLTR p = (isRTL p \<and> get_disableRTL p)"

definition isDefaultThumbActive :: "slider \<Rightarrow> bool" where
  "isDefaultThumbActive s = (activeThumbRef s = Thumb)"

definition setActiveThumb :: "thumbRef \<Rightarrow> slider \<Rightarrow> slider" where
  "setActiveThumb r s = s\<lparr>activeThumbRef := r\<rparr>"

definition get_x :: "slider \<Rightarrow> jsnum" where
  "get_x s = (if isDefaultThumbActive s then pos_x s else pos_x_min s)"

definition set_x :: "jsnum \<Rightarrow> slider \<Rightarrow> slider" where
  "set_x xx s = (if isDefaultThumbActive s then s\<lparr>pos_x := xx\<rparr> else s\<lparr>pos_x_min := xx\<rparr>)"

text \<open>
  \<open>thumb.current\<close> and \<open>minThumb.current\<close>: \<open>render\<close> always renders the thumb, and the
  minimum thumb only when \<open>useRange\<close> is set.
\<close>

definition thumb_current :: "slider \<Rightarrow> bool" where
  "thumb_current s = mounted s"

definition minThumb_current :: "props \<Rightarrow> slider \<Rightarrow> bool" where
  "minThumb_current p s = (mounted s \<and> useRange p)"

section \<open>Events\<close>

definition onSeekStart :: "slider \<Rightarrow> slider" where
  "onSeekStart s = s\<lparr>calls := calls s @ [OnSeekStart]\<rparr>"

definition onSeekEnd :: "slider \<Rightarrow> slider" where
  "onSeekEnd s = s\<lparr>calls := calls s @ [OnSeekEnd]\<rparr>"

definition onValueChange :: "jsnum \<Rightarrow> slider \<Rightarrow> slider" where
  "onValueChange v s = s\<lparr>lastValue := v, calls := calls s @ [OnValueChange v]\<rparr>"

definition onRangeChange :: "props \<Rightarrow> jsnum \<Rightarrow> slider \<Rightarrow> slider" where
  "onRangeChange p v s =
     (let s1 = (if isDefaultThumbActive s then s\<lparr>lastValue := v\<rparr> else s\<lparr>lastMinValue := v\<rparr>)
      in if isRTL p \<and> disableRTL p
         then s1\<lparr>calls := calls s1 @
                 [OnRangeChange (jsub (maximumValue p) (lastValue s1))
                                (jsub (maximumValue p) (lastMinValue s1))]\<rparr>
         else s1\<lparr>calls := calls s1 @ [OnRangeChange (lastMinValue s1) (lastValue s1)]\<rparr>)"

definition updateValue :: "props \<Rightarrow> jsnum \<Rightarrow> slider \<Rightarrow> slider" where
  "updateValue p xx s =
     (let v = getValueForX p s xx
      in if useRange p then onRangeChange p v s else onValueChange v s)"

section \<open>Moving the thumbs\<close>

definition moveMinTo :: "props \<Rightarrow> jsnum \<Rightarrow> slider \<Rightarrow> slider" where
  "moveMinTo p xx s =
     (if minThumb_current p s then
        (let w = width (st_trackSize s);
             nonOverlappingTrackWidth = jsub w (width (initialThumbSize s));
             x' = (if shouldForceLTR p then jsub nonOverlappingTrackWidth xx else xx);
             left = (if jeq w (Num 0) then x' else jdiv (jmul x' nonOverlappingTrackWidth) w);
             maxThumbPosition = toNumber (thumbStyles_left s)
         in if jle left maxThumbPosition
            then updateValue p xx
                   (s\<lparr>minThumbStyles_left := Some left,
                      minTrackStyles_width := Some (jsub maxThumbPosition xx),
                      minTrackStyles_left := Some xx\<rparr>)
            else s)
      else s)"

definition moveTo :: "props \<Rightarrow> jsnum \<Rightarrow> slider \<Rightarrow> slider" where
  "moveTo p xx s =
     (if isDefaultThumbActive s then
        (if thumb_current s then
           (let w = width (st_trackSize s);
                nonOverlappingTrackWidth = jsub w (width (initialThumbSize s));
                x' = (if shouldForceLTR p then jsub w xx else xx);
                left = (if jeq w (Num 0) then x' else jdiv (jmul x' nonOverlappingTrackWidth) w)
            in if useRange p then
                 (let minThumbPosition = toNumber (minThumbStyles_left s)
                  in if jge left minThumbPosition
                     then updateValue p xx
                            (s\<lparr>thumbStyles_left := Some left,
                               minTrackStyles_width := Some (jsub left minThumbPosition)\<rparr>)
                     else s)
               else s\<lparr>thumbStyles_left := Some left,
                      minTrackStyles_width := Some (jmin w xx)\<rparr>)
         else s)
      else moveMinTo p xx s)"

definition update :: "props \<Rightarrow> jsnum \<Rightarrow> slider \<Rightarrow> slider" where
  "update p dx s =
     (let x0 = get_x s;
          x1 = jadd x0 dx;
          x2 = jmax (jmin x1 (width (st_trackSize s))) (Num 0);
          s1 = set_x x2 s;
          s2 = moveTo p x2 s1
      in if \<not> useRange p then updateValue p x2 s2 else s2)"

definition bounceToStep :: "props \<Rightarrow> slider \<Rightarrow> slider" where
  "bounceToStep p s =
     (if jgt (step p) (Num 0) then
        (let v = getValueForX p s (get_x s);
             roundedValue = getRoundedValue p v;
             xx = getXForValue p s roundedValue
         in moveTo p xx (set_x xx s))
      else s)"

definition reset :: "props \<Rightarrow> slider \<Rightarrow> slider" where
  "reset p s =
     (let s1 = s\<lparr>lastValue := initialValue s, lastMinValue := minInitialValue s,
                 lastDx := Num 0\<rparr>;
          s2 = setActiveThumb Thumb s1;
          s3 = set_x (getXForValue p s2 (initialValue s2)) s2;
          s4 = update p (Num 0) s3;
          s5 = setActiveThumb MinThumb s4;
          s6 = set_x (getXForValue p s5 (minInitialValue s5)) s5
      in update p (Num 0) s6)"

definition updateTrackStepAndStyle :: "props \<Rightarrow> jsnum \<Rightarrow> slider \<Rightarrow> slider" where
  "updateTrackStepAndStyle p locationX s =
     (let newX = (if isRTL p \<and> \<not> get_disableRTL p
                  then jsub (width (st_trackSize s)) locationX else locationX);
          s1 = (if useRange p then
                  (if isDefaultThumbActive s \<and> truthy (toNumber (minThumbStyles_left s))
                      \<and> jlt newX (toNumber (minThumbStyles_left s))
                   then setActiveThumb MinThumb s
                   else if \<not> isDefaultThumbActive s \<and> truthy (toNumber (thumbStyles_left s))
                      \<and> jgt newX (toNumber (thumbStyles_left s))
                   then setActiveThumb Thumb s
                   else s)
                else s);
          s2 = set_x newX s1;
          s3 = (if \<not> useRange p then updateValue p (get_x s2) s2 else s2)
      in if jgt (step p) (Num 0) then bounceToStep p s3 else moveTo p (get_x s3) s3)"

section \<open>The gesture responder\<close>

definition handlePanResponderGrant :: "props \<Rightarrow> slider \<Rightarrow> slider" where
  "handlePanResponderGrant p s = onSeekStart (s\<lparr>lastDx := Num 0\<rparr>)"

text \<open>\<open>gdx\<close> is \<open>gestureState.dx\<close>, the distance since the touch started.\<close>

definition handlePanResponderMove :: "props \<Rightarrow> jsnum \<Rightarrow> slider \<Rightarrow> slider" where
  "handlePanResponderMove p gdx s =
     (if disabled p then s
      else
        (let dx = jmul gdx (if isRTL p \<and> \<not> get_disableRTL p then Num (- 1) else Num 1);
             s1 = update p (jsub dx (lastDx s)) s
         in s1\<lparr>lastDx := dx\<rparr>))"

definition handlePanResponderEnd :: "props \<Rightarrow> slider \<Rightarrow> slider" where
  "handlePanResponderEnd p s = onSeekEnd (bounceToStep p s)"

definition handleTrackPress :: "props \<Rightarrow> jsnum \<Rightarrow> slider \<Rightarrow> slider" where
  "handleTrackPress p locationX s =
     (if disabled p then s
      else onSeekEnd (updateTrackStepAndStyle p locationX (onSeekStart s)))"

definition onMinTouchStart :: "slider \<Rightarrow> slider" where
  "onMinTouchStart s = setActiveThumb MinThumb s"

definition onTouchStart :: "slider \<Rightarrow> slider" where
  "onTouchStart s = setActiveThumb Thumb s"

section \<open>Accessibility\<close>

definition onAccessibilityAction :: "props \<Rightarrow> string \<Rightarrow> slider \<Rightarrow> slider" where
  "onAccessibilityAction p actionName s =
     (let v = getValueForX p s (pos_x s);
          newValue =
            (if actionName = ''increment''
               then (if \<not> jeq v (maximumValue p) then jadd v (step p) else v)
             else if actionName = ''decrement''
               then (if \<not> jeq v (minimumValue p) then jsub v (step p) else v)
             else v);
          s1 = s\<lparr>pos_x := getXForValue p s newValue\<rparr>;
          s2 = updateValue p (pos_x s1) s1;
          s3 = moveTo p (pos_x s2) s2
      in s3\<lparr>calls := calls s3 @ [Announce newValue]\<rparr>)"

section \<open>Lifecycle and measurement\<close>

text \<open>
  The constructor and the field initialisers. Nothing is measured yet, the thumb is taken
  to be \<open>THUMB_SIZE\<close> wide, and \<open>_thumbStyles\<close> has no \<open>left\<close>.
\<close>

definition THUMB_SIZE :: jsnum where
  "THUMB_SIZE = Num 24"

definition zeroSize :: measurements where
  "zeroSize = \<lparr>width = Num 0, height = Num 0\<rparr>"

definition constructor :: "props \<Rightarrow> slider" where
  "constructor p =
     (let iv = getRoundedValue p (if useRange p then initialMaximumValue p else propValue p);
          miv = getRoundedValue p (initialMinimumValue p)
      in \<lparr>st_containerSize = zeroSize, st_trackSize = zeroSize, st_thumbSize = zeroSize,
          measureCompleted = False, activeThumbRef = Thumb,
          pos_x = Num 0, pos_x_min = Num 0, lastDx = Num 0,
          initialValue = iv, minInitialValue = miv, lastValue = iv, lastMinValue = miv,
          thumbStyles_left = None, minThumbStyles_left = Some (Num 0),
          minTrackStyles_width = None, minTrackStyles_left = None,
          initialThumbSize = \<lparr>width = THUMB_SIZE, height = THUMB_SIZE\<rparr>,
          containerSize = None, trackSize = None, thumbSize = None,
          mounted = False, calls = []\<rparr>)"

text \<open>
  When \<open>componentDidMount\<close> runs the component is rendered and its refs are set. The
  listener it registers is the one that later delivers \<open>onOrientationChanged\<close>.
\<close>

definition componentDidMount :: "slider \<Rightarrow> slider" where
  "componentDidMount s = s\<lparr>mounted := True\<rparr>"

text \<open>
  \<open>componentDidUpdate\<close>, given the previous props and the previous \<open>measureCompleted\<close>
  (the one field of the previous state it reads).
\<close>

definition componentDidUpdate :: "props \<Rightarrow> bool \<Rightarrow> props \<Rightarrow> slider \<Rightarrow> slider" where
  "componentDidUpdate prevProps prevMeasureCompleted p s =
     (let s1 = (if \<not> useRange p \<and> \<not> jeq (propValue prevProps) (propValue p) then
                  (let a = s\<lparr>initialValue := getRoundedValue p (propValue p)\<rparr>;
                       b = a\<lparr>pos_x := getXForValue p a (initialValue a)\<rparr>
                   in moveTo p (pos_x b) b)
                else s)
      in if prevMeasureCompleted \<noteq> measureCompleted s1 then
           (let a = s1\<lparr>initialThumbSize := st_thumbSize s1\<rparr>;
                b = a\<lparr>pos_x := getXForValue p a (initialValue a)\<rparr>;
                c = b\<lparr>pos_x_min := getXForValue p b (minInitialValue b)\<rparr>
            in moveTo p (pos_x c) c)
         else s1)"

text \<open>
  \<open>setState({measureCompleted: b})\<close> with the update that follows it: the state is
  replaced, then \<open>componentDidUpdate\<close> runs with the props unchanged. Every \<open>setState\<close>
  is taken to be applied at once, in the order of the calls.
\<close>

definition setMeasureCompleted :: "props \<Rightarrow> bool \<Rightarrow> slider \<Rightarrow> slider" where
  "setMeasureCompleted p b s =
     componentDidUpdate p (measureCompleted s) p (s\<lparr>measureCompleted := b\<rparr>)"

definition onOrientationChanged :: "props \<Rightarrow> slider \<Rightarrow> slider" where
  "onOrientationChanged p s =
     setMeasureCompleted p False
       (s\<lparr>initialValue := lastValue s, minInitialValue := lastMinValue s\<rparr>)"

definition measured :: "measuredVariableName \<Rightarrow> slider \<Rightarrow> measurements option" where
  "measured name s =
     (case name of ContainerSize \<Rightarrow> containerSize s
      | TrackSize \<Rightarrow> trackSize s
      | ThumbSize \<Rightarrow> thumbSize s)"

definition setMeasured :: "measuredVariableName \<Rightarrow> measurements \<Rightarrow> slider \<Rightarrow> slider" where
  "setMeasured name sz s =
     (case name of ContainerSize \<Rightarrow> s\<lparr>containerSize := Some sz\<rparr>
      | TrackSize \<Rightarrow> s\<lparr>trackSize := Some sz\<rparr>
      | ThumbSize \<Rightarrow> s\<lparr>thumbSize := Some sz\<rparr>)"

text \<open>
  \<open>handleMeasure\<close>: an unchanged sz is ignored. Once the three sizes are known they go
  to the state, and the callback of that \<open>setState\<close> sets \<open>measureCompleted\<close>.
\<close>

definition handleMeasure :: "props \<Rightarrow> measuredVariableName \<Rightarrow> measurements \<Rightarrow> slider \<Rightarrow> slider" where
  "handleMeasure p name sz s =
     (if (case measured name s of None \<Rightarrow> False
          | Some c \<Rightarrow> jeq (width sz) (width c) \<and> jeq (height sz) (height c))
      then s
      else
        (let s1 = setMeasured name sz s
         in case (containerSize s1, thumbSize s1, trackSize s1) of
              (Some c, Some th, Some tr) \<Rightarrow>
                (let s2 = s1\<lparr>st_containerSize := c, st_trackSize := tr, st_thumbSize := th\<rparr>;
                     s3 = componentDidUpdate p (measureCompleted s1) p s2
                 in setMeasureCompleted p True s3)
            | _ \<Rightarrow> s1))"

definition onContainerLayout :: "props \<Rightarrow> measurements \<Rightarrow> slider \<Rightarrow> slider" where
  "onContainerLayout p sz s = handleMeasure p ContainerSize sz s"

definition onTrackLayout :: "props \<Rightarrow> measurements \<Rightarrow> slider \<Rightarrow> slider" where
  "onTrackLayout p sz s = handleMeasure p TrackSize sz (setMeasureCompleted p False s)"

definition onThumbLayout :: "props \<Rightarrow> measurements \<Rightarrow> slider \<Rightarrow> slider" where
  "onThumbLayout p sz s = handleMeasure p ThumbSize sz s"

section \<open>Sequences of interactions\<close>

text \<open>What the user and the platform can do to a rendered slider.\<close>

datatype action =
    TouchStart
  | MinTouchStart
  | Grant
  | Move jsnum
  | Release
  | TrackPress jsnum
  | AccessibilityAction string
  | Reset
  | OrientationChanged
  | ContainerLayout measurements
  | TrackLayout measurements
  | ThumbLayout measurements

fun perform :: "props \<Rightarrow> action \<Rightarrow> slider \<Rightarrow> slider" where
  "perform p TouchStart s = onTouchStart s"
| "perform p MinTouchStart s = onMinTouchStart s"
| "perform p Grant s = handlePanResponderGrant p s"
| "perform p (Move gdx) s = handlePanResponderMove p gdx s"
| "perform p Release s = handlePanResponderEnd p s"
| "perform p (TrackPress locationX) s = handleTrackPress p locationX s"
| "perform p (AccessibilityAction actionName) s = onAccessibilityAction p actionName s"
| "perform p Reset s = reset p s"
| "perform p OrientationChanged s = onOrientationChanged p s"
| "perform p (ContainerLayout sz) s = onContainerLayout p sz s"
| "perform p (TrackLayout sz) s = onTrackLayout p sz s"
| "perform p (ThumbLayout sz) s = onThumbLayout p sz s"

fun run :: "props \<Rightarrow> action list \<Rightarrow> slider \<Rightarrow> slider" where
  "run p [] s = s"
| "run p (a # as) s = run p as (perform p a s)"

section \<open>Example configurations\<close>

text \<open>The default props with the given minimum, maximum and step.\<close>

definition configured :: "rat \<Rightarrow> rat \<Rightarrow> rat \<Rightarrow> props" where
  "configured lo hi st =
     defaultProps\<lparr>minimumValue := Num lo, maximumValue := Num hi, step := Num st\<rparr>"

text \<open>A range slider from 0 to 100 without step, its thumbs starting at 40 and 60.\<close>

definition rangeProps :: props where
  "rangeProps =
     (configured 0 100 0)\<lparr>useRange := True, initialMinimumValue := Num 40,
                            initialMaximumValue := Num 60\<rparr>"

text \<open>
  The slider once it is mounted and laid out: a container and a track \<open>w\<close> wide and a
  thumb \<open>t\<close> wide have been measured.
\<close>

definition rendered :: "props \<Rightarrow> rat \<Rightarrow> rat \<Rightarrow> slider" where
  "rendered p w t =
     run p [ContainerLayout \<lparr>width = Num w, height = Num 28\<rparr>,
            ThumbLayout \<lparr>width = Num t, height = Num t\<rparr>,
            TrackLayout \<lparr>width = Num w, height = Num 6\<rparr>]
       (componentDidMount (constructor p))"

section \<open>Arithmetic of finite numbers\<close>

lemma jmax_Num: "jmax (Num a) (Num b) = Num (max a b)"
  by (simp add: jmax_def max_def)

lemma jmin_Num: "jmin (Num a) (Num b) = Num (min a b)"
  by (simp add: jmin_def min_def)

lemma jsub_Num: "jsub (Num a) (Num b) = Num (a - b)"
  by (simp add: jsub_def)

lemma jle_Num: "jle (Num a) (Num b) = (a \<le> b)"
  by (auto simp: jle_def jeq_def)

lemma round_of_int: "\<lfloor>rat_of_int k + 1 / 2\<rfloor> = k"
  by linarith

lemma round_bounds:
  assumes "rat_of_int a * st \<le> v" "v \<le> rat_of_int b * st" "0 < st"
  shows "a \<le> \<lfloor>v / st + 1 / 2\<rfloor> \<and> \<lfloor>v / st + 1 / 2\<rfloor> \<le> b"
proof -
  have "rat_of_int a \<le> v / st" using assms(1,3) by (simp add: pos_le_divide_eq)
  moreover have "v / st \<le> rat_of_int b" using assms(2,3) by (simp add: pos_divide_le_eq)
  ultimately show ?thesis by (simp add: le_floor_iff floor_le_iff)
qed

section \<open>The conversions on finite numbers\<close>

lemma getValueInRange_finite:
  assumes "minimumValue p = Num lo" "maximumValue p = Num hi"
  shows "getValueInRange p (Num v) = Num (if v < lo then lo else if hi < v then hi else v)"
  using assms by (simp add: getValueInRange_def jgt_def)

lemma getRoundedValue_finite:
  assumes "minimumValue p = Num lo" "maximumValue p = Num hi" "step p = Num st"
  shows "getRoundedValue p (Num v) =
           (let c = (if v < lo then lo else if hi < v then hi else v)
            in if 0 < st then Num (of_int \<lfloor>c / st + 1 / 2\<rfloor> * st) else Num c)"
  using assms
  by (simp add: getRoundedValue_def getValueInRange_finite [OF assms(1,2)] jgt_def Let_def)

lemma getXForValue_finite:
  assumes "minimumValue p = Num lo" "maximumValue p = Num hi" "lo \<noteq> hi"
    and "width (st_trackSize s) = Num w"
  shows "getXForValue p s (Num v) =
           Num ((if lo < 0 then \<bar>lo - v\<bar> else v - lo) / (hi - lo) * w)"
  using assms by (simp add: getXForValue_def getRange_def jsub_Num Let_def)

lemma getValueForX_finite:
  assumes "minimumValue p = Num lo" "maximumValue p = Num hi" "step p = Num st"
    and "width (st_trackSize s) = Num w" "width (initialThumbSize s) = Num t"
    and "w - t / 2 \<noteq> 0"
  shows "getValueForX p s (Num xx) =
           Num (max lo (min hi
             (if st = 0 then xx / (w - t / 2) * (hi - lo) + lo
              else lo + of_int \<lfloor>xx / (w - t / 2) * (hi - lo) / st + 1 / 2\<rfloor> * st)))"
  using assms
  by (simp add: getValueForX_def getRange_def jsub_Num jmax_Num jmin_Num truthy_def Let_def)

section \<open>Round trip under stepping\<close>

text \<open>
  The value 50 of a slider from 0 to 100 with step 10, on a track 100 wide with a thumb
  24 wide, comes back as 60: \<open>getValueForX\<close> divides by the track width less half the
  thumb width, \<open>getXForValue\<close> multiplies by the track width. Between 5 and 25 with step
  10, \<open>getRoundedValue\<close> rounds 5 to 10, a multiple of the step, and \<open>getValueForX\<close>
  answers 15, the minimum plus a multiple of the step.
\<close>

theorem roundtrip_counterexample:
  "getValueForX (configured 0 100 10) (rendered (configured 0 100 10) 100 24)
     (getXForValue (configured 0 100 10) (rendered (configured 0 100 10) 100 24)
        (getRoundedValue (configured 0 100 10) (Num 50))) = Num 60
   \<and> getRoundedValue (configured 0 100 10) (Num 60) \<noteq> getRoundedValue (configured 0 100 10) (Num 50)
   \<and> getValueForX (configured 5 25 10) (rendered (configured 5 25 10) 1000 24)
     (getXForValue (configured 5 25 10) (rendered (configured 5 25 10) 1000 24)
        (getRoundedValue (configured 5 25 10) (Num 5))) = Num 15
   \<and> getRoundedValue (configured 5 25 10) (Num 15) \<noteq> getRoundedValue (configured 5 25 10) (Num 5)"
  by code_simp

text \<open>
  C1, amended: for a value \<open>v\<close> between the minimum and the maximum and a positive step
  of which the minimum and the maximum are multiples, the maximum being \<open>n\<close> steps above
  the minimum, converting the rounded value to an offset and back gives the rounded value
  again, provided \<open>n - 1\<close> times the thumb width is less than the track width less half
  the thumb width.
\<close>

theorem roundtrip_stepped:
  assumes mn: "minimumValue p = Num lo" and mx: "maximumValue p = Num hi"
    and stp: "step p = Num st"
    and tw: "width (st_trackSize s) = Num w" and th: "width (initialThumbSize s) = Num t"
    and st: "0 < st" and lohi: "lo < hi" and v: "lo \<le> v" "v \<le> hi"
    and grid: "lo = rat_of_int a * st" "hi = rat_of_int b * st"
    and geo: "0 \<le> t" "rat_of_int (b - a - 1) * t < w - t / 2"
  shows "getValueForX p s (getXForValue p s (getRoundedValue p (Num v)))
           = getRoundedValue p (Num v)"
proof -
  define m where "m = \<lfloor>v / st + 1 / 2\<rfloor>"
  define q where "q = rat_of_int m * st"
  define d where "d = w - t / 2"
  define k where "k = \<lfloor>rat_of_int (m - a) * (w / d) + 1 / 2\<rfloor>"
  define y where "y = lo + rat_of_int k * st"
  have mab: "a \<le> m" "m \<le> b"
    using round_bounds [of a st v b] v st grid by (simp_all add: m_def)
  have ab: "a < b"
  proof -
    have "rat_of_int a * st < rat_of_int b * st" using lohi grid by simp
    then have "rat_of_int a < rat_of_int b" using st by (simp add: mult_less_cancel_right)
    then show ?thesis by simp
  qed
  have q: "getRoundedValue p (Num v) = Num q"
    using getRoundedValue_finite [OF mn mx stp, of v] v st by (simp add: Let_def q_def m_def)
  have qlo: "lo \<le> q" using mab(1) st by (simp add: q_def grid mult_right_mono)
  have qhi: "q \<le> hi" using mab(2) st by (simp add: q_def grid mult_right_mono)
  have "0 \<le> rat_of_int (b - a - 1) * t" using ab geo(1) by (intro mult_nonneg_nonneg) simp_all
  then have d: "0 < d" using geo(2) by (simp add: d_def)
  have dw: "d \<le> w" using geo(1) by (simp add: d_def)
  have w: "0 < w" using d dw by simp
  have x: "getXForValue p s (Num q) = Num ((q - lo) / (hi - lo) * w)"
    using getXForValue_finite [OF mn mx _ tw, of q] lohi qlo by simp
  have ratio: "(q - lo) / (hi - lo) * w / d * (hi - lo) / st = rat_of_int (m - a) * (w / d)"
    using lohi st d by (simp add: q_def grid(1) field_simps)
  have bk: "getValueForX p s (Num ((q - lo) / (hi - lo) * w)) = Num (max lo (min hi y))"
    using getValueForX_finite [OF mn mx stp tw th, of "(q - lo) / (hi - lo) * w"] d st ratio
    by (simp add: d_def y_def k_def)
  have "1 \<le> w / d" using d dw by (simp add: pos_le_divide_eq)
  then have "rat_of_int (m - a) * 1 \<le> rat_of_int (m - a) * (w / d)"
    using mab(1) by (intro mult_left_mono) simp_all
  then have "\<lfloor>rat_of_int (m - a) + 1 / 2\<rfloor> \<le> k"
    unfolding k_def by (intro floor_mono) simp
  then have kge: "m - a \<le> k" by (simp only: round_of_int)
  have "max lo (min hi y) = q"
  proof (cases "m = b")
    case True
    then have qh: "q = hi" by (simp add: q_def grid)
    have "rat_of_int (m - a) * st \<le> rat_of_int k * st"
      using kge st by (intro mult_right_mono) simp_all
    then have "q \<le> y" by (simp add: y_def q_def grid(1) algebra_simps)
    then show ?thesis using qh lohi by (simp add: max_def min_def)
  next
    case False
    then have "m - a \<le> b - a - 1" using mab(2) by simp
    then have "rat_of_int (m - a) \<le> rat_of_int (b - a - 1)" by (simp only: of_int_le_iff)
    then have "rat_of_int (m - a) * t \<le> rat_of_int (b - a - 1) * t"
      using geo(1) by (rule mult_right_mono)
    then have kt: "rat_of_int (m - a) * t < d" using geo(2) by (simp add: d_def)
    have wd: "w / d = 1 + (t / 2) / d" using d by (simp add: d_def field_simps)
    define e where "e = rat_of_int (m - a) * ((t / 2) / d)"
    have "rat_of_int (m - a) * t / 2 < d / 2" using kt by simp
    then have "rat_of_int (m - a) * t / 2 / d < d / 2 / d"
      using d by (rule divide_strict_right_mono)
    then have e1: "e < 1 / 2" using d by (simp add: e_def)
    have e0: "0 \<le> e"
      unfolding e_def using mab(1) geo(1) d by (intro mult_nonneg_nonneg) simp_all
    have split: "rat_of_int (m - a) * (w / d) = rat_of_int (m - a) + e"
      unfolding wd e_def by (simp only: distrib_left mult_1_right)
    have up: "rat_of_int (m - a) * (w / d) + 1 / 2 < rat_of_int (m - a) + 1"
      unfolding split using e1 by linarith
    have lw: "rat_of_int (m - a) \<le> rat_of_int (m - a) * (w / d) + 1 / 2"
      unfolding split using e0 by linarith
    have "k = m - a" unfolding k_def using lw up by (simp only: floor_eq_iff)
    then have "rat_of_int m = rat_of_int a + rat_of_int k" by simp
    then have "y = q" unfolding y_def q_def grid(1) by (simp only: distrib_right)
    then show ?thesis using qlo qhi by (simp add: max_def min_def)
  qed
  then show ?thesis unfolding q x bk by simp
qed

theorem roundtrip_stepped_witness:
  "getValueForX (configured 0 100 10) (rendered (configured 0 100 10) 300 24)
     (getXForValue (configured 0 100 10) (rendered (configured 0 100 10) 300 24)
        (getRoundedValue (configured 0 100 10) (Num 23)))
   = getRoundedValue (configured 0 100 10) (Num 23)"
proof -
  have a: "minimumValue (configured 0 100 10) = Num 0" by code_simp
  have b: "maximumValue (configured 0 100 10) = Num 100" by code_simp
  have c: "step (configured 0 100 10) = Num 10" by code_simp
  have d: "width (st_trackSize (rendered (configured 0 100 10) 300 24)) = Num 300"
    by code_simp
  have e: "width (initialThumbSize (rendered (configured 0 100 10) 300 24)) = Num 24"
    by code_simp
  have f: "(0::rat) < 10" "(0::rat) < 100" "(0::rat) \<le> 23" "(23::rat) \<le> 100" by simp_all
  have g: "(0::rat) = rat_of_int 0 * 10" "(100::rat) = rat_of_int 10 * 10" by simp_all
  have h: "(0::rat) \<le> 24" "rat_of_int (10 - 0 - 1) * 24 < 300 - 24 / 2" by simp_all
  from roundtrip_stepped [OF a b c d e f g h] show ?thesis .
qed

section \<open>Monotonicity of the offset-to-value conversion\<close>

text \<open>
  On a track 12 wide with a thumb 24 wide the divisor of \<open>getValueForX\<close> is zero: the
  offset 0 gives \<open>NaN\<close>, which is not below the value at the offset 12.
\<close>

theorem getValueForX_mono_counterexample:
  "\<not> jle (getValueForX (configured 0 100 0) (rendered (configured 0 100 0) 12 24) (Num 0))
          (getValueForX (configured 0 100 0) (rendered (configured 0 100 0) 12 24) (Num 12))"
  by code_simp

text \<open>
  C7, amended: when the minimum is below the maximum, the step is zero or positive and
  the track width is not half the thumb width, \<open>getValueForX\<close> is non-decreasing on the
  offsets between 0 and the track width.
\<close>

theorem getValueForX_mono:
  assumes "minimumValue p = Num lo" "maximumValue p = Num hi" "step p = Num st"
    and "width (st_trackSize s) = Num w" "width (initialThumbSize s) = Num t"
    and "w \<noteq> t / 2" "lo < hi" "0 \<le> st" "0 \<le> x1" "x1 \<le> x2" "x2 \<le> w"
  shows "jle (getValueForX p s (Num x1)) (getValueForX p s (Num x2))"
proof -
  define d where "d = w - t / 2"
  define r where "r = hi - lo"
  define f where "f = (\<lambda>xx. if st = 0 then xx / d * r + lo
              else lo + of_int \<lfloor>xx / d * r / st + 1 / 2\<rfloor> * st)"
  have d: "d \<noteq> 0" using assms(6) by (simp add: d_def)
  have r: "0 < r" using assms(7) by (simp add: r_def)
  have v: "getValueForX p s (Num xx) = Num (max lo (min hi (f xx)))" for xx
    using getValueForX_finite [OF assms(1-5), of xx] d by (simp add: d_def r_def f_def)
  have "max lo (min hi (f x1)) \<le> max lo (min hi (f x2))"
  proof (cases "0 < d")
    case True
    have a: "x1 / d * r \<le> x2 / d * r"
      using True r assms(10) by (simp add: divide_right_mono mult_right_mono)
    have "f x1 \<le> f x2"
    proof (cases "st = 0")
      case True
      then show ?thesis using a by (simp add: f_def)
    next
      case False
      then have st: "0 < st" using assms(8) by simp
      have "x1 / d * r / st \<le> x2 / d * r / st"
        by (rule divide_right_mono [OF a]) (use st in simp)
      then have "\<lfloor>x1 / d * r / st + 1 / 2\<rfloor> \<le> \<lfloor>x2 / d * r / st + 1 / 2\<rfloor>"
        by (intro floor_mono) simp
      then have "rat_of_int \<lfloor>x1 / d * r / st + 1 / 2\<rfloor> * st \<le> rat_of_int \<lfloor>x2 / d * r / st + 1 / 2\<rfloor> * st"
        using st by (simp add: mult_right_mono)
      then show ?thesis using False by (simp add: f_def)
    qed
    then show ?thesis by (simp add: max_def min_def)
  next
    case False
    then have dn: "d < 0" using d by simp
    have le0: "xx / d * r \<le> 0" if "0 \<le> xx" for xx
      using that dn r by (simp add: divide_nonneg_neg mult_nonpos_nonneg)
    have fle: "f xx \<le> lo" if xx: "0 \<le> xx" for xx
    proof (cases "st = 0")
      case True
      then show ?thesis using le0 [OF xx] by (simp add: f_def)
    next
      case False
      then have st: "0 < st" using assms(8) by simp
      have "xx / d * r / st \<le> 0"
        by (rule divide_nonpos_pos [OF le0 [OF xx] st])
      then have "\<lfloor>xx / d * r / st + 1 / 2\<rfloor> \<le> 0"
        by linarith
      then have "rat_of_int \<lfloor>xx / d * r / st + 1 / 2\<rfloor> * st \<le> 0"
        using st by (simp add: mult_nonpos_nonneg)
      then show ?thesis using False by (simp add: f_def)
    qed
    have "0 \<le> x2" using assms(9,10) by simp
    from fle [OF assms(9)] fle [OF this] assms(7) show ?thesis
      by (simp add: max_def min_def)
  qed
  then show ?thesis by (simp add: v jle_Num)
qed

theorem getValueForX_mono_witness:
  "jle (getValueForX (configured 0 100 10) (rendered (configured 0 100 10) 300 24) (Num 69))
       (getValueForX (configured 0 100 10) (rendered (configured 0 100 10) 300 24) (Num 150))"
proof (rule getValueForX_mono [where lo = 0 and hi = 100 and st = 10 and w = 300 and t = 24])
  show "minimumValue (configured 0 100 10) = Num 0" by code_simp
  show "maximumValue (configured 0 100 10) = Num 100" by code_simp
  show "step (configured 0 100 10) = Num 10" by code_simp
  show "width (st_trackSize (rendered (configured 0 100 10) 300 24)) = Num 300" by code_simp
  show "width (initialThumbSize (rendered (configured 0 100 10) 300 24)) = Num 24" by code_simp
qed simp_all

section \<open>The degenerate range\<close>

lemma jdiv_zero_not_finite: "\<not> isFinite (jdiv a (Num 0))"
  by (cases a) (simp_all add: signedInf_def)

lemma jmul_not_finite: "\<not> isFinite a \<Longrightarrow> \<not> isFinite (jmul a b)"
  by (cases a; cases b) (simp_all add: signedInf_def)

text \<open>
  With the minimum and the maximum both 5, \<open>getXForValue\<close> divides by the range, which
  is zero: the value 5 gives \<open>NaN\<close> and the value 6 gives \<open>Infinity\<close>.
\<close>

theorem degenerate_range_counterexample:
  "getXForValue (configured 5 5 0) (rendered (configured 5 5 0) 100 24) (Num 5) = NaN
   \<and> getXForValue (configured 5 5 0) (rendered (configured 5 5 0) 100 24) (Num 6) = PosInf"
  by code_simp

text \<open>
  C3, amended: when the maximum equals the minimum, \<open>getRange\<close> is zero and
  \<open>getXForValue\<close> divides by it without a special case, so that its result is never a
  finite number; \<open>getValueForX\<close> does not divide by the range and returns the minimum for
  every finite offset and step, provided the track width is not half the thumb width.
\<close>

theorem degenerate_range:
  assumes "minimumValue p = Num m" "maximumValue p = Num m"
  shows "getRange p = Num 0
       \<and> \<not> isFinite (getXForValue p s v)
       \<and> (\<forall>st w t xx. step p = Num st \<and> width (st_trackSize s) = Num w
              \<and> width (initialThumbSize s) = Num t \<and> w \<noteq> t / 2
            \<longrightarrow> getValueForX p s (Num xx) = Num m)"
proof -
  have r: "getRange p = Num 0" using assms by (simp add: getRange_def jsub_Num)
  have x: "\<not> isFinite (getXForValue p s v)"
    unfolding getXForValue_def Let_def r
    by (rule jmul_not_finite) (rule jdiv_zero_not_finite)
  have v: "getValueForX p s (Num xx) = Num m"
    if "step p = Num st" "width (st_trackSize s) = Num w"
      "width (initialThumbSize s) = Num t" "w \<noteq> t / 2" for st w t xx
    using getValueForX_finite [OF assms that(1-3), of xx] that(4) by simp
  show ?thesis using r x v by blast
qed

theorem degenerate_range_witness:
  "getRange (configured 5 5 10) = Num 0
   \<and> \<not> isFinite (getXForValue (configured 5 5 10) (rendered (configured 5 5 10) 100 24) (Num 5))
   \<and> getValueForX (configured 5 5 10) (rendered (configured 5 5 10) 100 24) (Num 40) = Num 5"
proof -
  have a: "minimumValue (configured 5 5 10) = Num 5" by code_simp
  have b: "maximumValue (configured 5 5 10) = Num 5" by code_simp
  have c: "step (configured 5 5 10) = Num 10" by code_simp
  have d: "width (st_trackSize (rendered (configured 5 5 10) 100 24)) = Num 100"
    by code_simp
  have e: "width (initialThumbSize (rendered (configured 5 5 10) 100 24)) = Num 24"
    by code_simp
  have f: "(100::rat) \<noteq> 24 / 2" by simp
  from degenerate_range [OF a b, of "rendered (configured 5 5 10) 100 24" "Num 5"] c d e f
  show ?thesis by blast
qed

section \<open>Single-thumb mode\<close>

lemma getValueForX_cong:
  "st_trackSize s' = st_trackSize s \<Longrightarrow> initialThumbSize s' = initialThumbSize s
   \<Longrightarrow> getValueForX p s' = getValueForX p s"
  by (rule ext) (simp add: getValueForX_def)

lemma getXForValue_cong:
  "st_trackSize s' = st_trackSize s \<Longrightarrow> getXForValue p s' = getXForValue p s"
  by (rule ext) (simp add: getXForValue_def)

text \<open>In single-thumb mode moveTo changes two styles only.\<close>

lemma moveTo_single:
  assumes "\<not> useRange p"
  shows "\<exists>l w. moveTo p xx s = s\<lparr>thumbStyles_left := l, minTrackStyles_width := w\<rparr>"
proof (cases "isDefaultThumbActive s \<and> thumb_current s")
  case True
  then show ?thesis using assms by (simp add: moveTo_def Let_def) blast
next
  case False
  have "moveTo p xx s = s"
    using False assms by (auto simp: moveTo_def moveMinTo_def minThumb_current_def)
  then have "moveTo p xx s = s\<lparr>thumbStyles_left := thumbStyles_left s, minTrackStyles_width := minTrackStyles_width s\<rparr>"
    by simp
  then show ?thesis by blast
qed

lemma moveTo_single_fields:
  assumes "\<not> useRange p"
  shows "lastValue (moveTo p xx s) = lastValue s"
    and "lastMinValue (moveTo p xx s) = lastMinValue s"
    and "calls (moveTo p xx s) = calls s"
    and "pos_x (moveTo p xx s) = pos_x s"
    and "pos_x_min (moveTo p xx s) = pos_x_min s"
    and "initialValue (moveTo p xx s) = initialValue s"
    and "minInitialValue (moveTo p xx s) = minInitialValue s"
    and "st_trackSize (moveTo p xx s) = st_trackSize s"
    and "st_thumbSize (moveTo p xx s) = st_thumbSize s"
    and "initialThumbSize (moveTo p xx s) = initialThumbSize s"
    and "activeThumbRef (moveTo p xx s) = activeThumbRef s"
    and "measureCompleted (moveTo p xx s) = measureCompleted s"
    and "mounted (moveTo p xx s) = mounted s"
    and "lastDx (moveTo p xx s) = lastDx s"
    and "containerSize (moveTo p xx s) = containerSize s"
    and "trackSize (moveTo p xx s) = trackSize s"
    and "thumbSize (moveTo p xx s) = thumbSize s"
  using moveTo_single [OF assms, of xx s] by auto

section \<open>Orientation changes\<close>

text \<open>
  C8: an orientation change followed by the layout events should leave the last values
  as they were. In range mode it does not: \<open>componentDidUpdate\<close> moves the thumb with
  \<open>moveTo\<close>, which reads the value back from the offset and stores it. The maximum of
  the range, 125/2 before the orientation change, is 3125/49 once the container and the
  track are measured again.
\<close>

theorem orientation_change_changes_range_value:
  "lastValue (run rangeProps [TouchStart, Grant, Move (Num 0), Release]
                (rendered rangeProps 300 24)) = Num (125 / 2)
   \<and> lastValue (run rangeProps
        [OrientationChanged,
         ContainerLayout \<lparr>width = Num 600, height = Num 28\<rparr>,
         TrackLayout \<lparr>width = Num 600, height = Num 6\<rparr>]
        (run rangeProps [TouchStart, Grant, Move (Num 0), Release]
           (rendered rangeProps 300 24))) = Num (3125 / 49)"
  by code_simp

section \<open>The disabled slider\<close>

lemma conversions_disabled:
  "getValueForX (p\<lparr>disabled := b\<rparr>) s xx = getValueForX p s xx"
  "getXForValue (p\<lparr>disabled := b\<rparr>) s v = getXForValue p s v"
  "getRoundedValue (p\<lparr>disabled := b\<rparr>) v = getRoundedValue p v"
  by (simp_all add: getValueForX_def getXForValue_def getRoundedValue_def getValueInRange_def
      getRange_def Let_def)

lemma updateValue_disabled: "updateValue (p\<lparr>disabled := b\<rparr>) xx s = updateValue p xx s"
  by (simp add: updateValue_def onRangeChange_def conversions_disabled Let_def)

lemma moveMinTo_disabled: "moveMinTo (p\<lparr>disabled := b\<rparr>) xx s = moveMinTo p xx s"
  by (simp add: moveMinTo_def updateValue_disabled shouldForceLTR_def get_disableRTL_def
      minThumb_current_def Let_def)

lemma moveTo_disabled: "moveTo (p\<lparr>disabled := b\<rparr>) xx s = moveTo p xx s"
  by (simp add: moveTo_def moveMinTo_disabled updateValue_disabled shouldForceLTR_def
      get_disableRTL_def Let_def)

lemma bounceToStep_disabled: "bounceToStep (p\<lparr>disabled := b\<rparr>) s = bounceToStep p s"
  by (simp add: bounceToStep_def moveTo_disabled conversions_disabled Let_def)

text \<open>
  C9: when \<open>disabled\<close> is set, the grant of a gesture still calls \<open>onSeekStart\<close> and its
  release still bounces to the step, exactly as when enabled, and calls \<open>onSeekEnd\<close>; a
  move of the gesture and a press on the track change nothing.
\<close>

theorem seek_callbacks_when_disabled:
  assumes "disabled p"
  shows "calls (handlePanResponderGrant p s) = calls s @ [OnSeekStart]
       \<and> calls (handlePanResponderEnd p s) = calls (bounceToStep p s) @ [OnSeekEnd]
       \<and> handlePanResponderEnd p s = handlePanResponderEnd (p\<lparr>disabled := False\<rparr>) s
       \<and> handlePanResponderMove p gdx s = s
       \<and> handleTrackPress p locationX s = s"
  using assms
  by (simp add: handlePanResponderGrant_def handlePanResponderEnd_def handlePanResponderMove_def
      handleTrackPress_def onSeekStart_def onSeekEnd_def bounceToStep_disabled)

theorem seek_callbacks_when_disabled_witness:
  "calls (handlePanResponderGrant ((configured 0 100 10)\<lparr>disabled := True\<rparr>)
            (rendered (configured 0 100 10) 300 24))
     = calls (rendered (configured 0 100 10) 300 24) @ [OnSeekStart]
   \<and> calls (handlePanResponderEnd ((configured 0 100 10)\<lparr>disabled := True\<rparr>)
            (rendered (configured 0 100 10) 300 24))
     = calls (bounceToStep ((configured 0 100 10)\<lparr>disabled := True\<rparr>)
            (rendered (configured 0 100 10) 300 24)) @ [OnSeekEnd]
   \<and> handlePanResponderMove ((configured 0 100 10)\<lparr>disabled := True\<rparr>) (Num 50)
            (rendered (configured 0 100 10) 300 24) = rendered (configured 0 100 10) 300 24"
proof -
  have d: "disabled ((configured 0 100 10)\<lparr>disabled := True\<rparr>)" by simp
  from seek_callbacks_when_disabled [OF d, of "rendered (configured 0 100 10) 300 24" "Num 50"]
  show ?thesis by blast
qed

section \<open>Clamping and rounding before the offset\<close>

lemma round_nearest:
  assumes "0 < st"
  shows "\<bar>rat_of_int \<lfloor>c / st + 1 / 2\<rfloor> * st - c\<bar> \<le> \<bar>rat_of_int j * st - c\<bar>"
proof -
  define y where "y = c / st"
  define k where "k = \<lfloor>y + 1 / 2\<rfloor>"
  have c: "c = y * st" using assms by (simp add: y_def)
  have k1: "rat_of_int k \<le> y + 1 / 2" unfolding k_def by (rule of_int_floor_le)
  have k2: "y + 1 / 2 < rat_of_int k + 1" unfolding k_def by linarith
  have near: "\<bar>rat_of_int k - y\<bar> \<le> \<bar>rat_of_int j - y\<bar>"
  proof (cases "j = k")
    case True
    then show ?thesis by simp
  next
    case False
    then consider "j \<le> k - 1" | "k + 1 \<le> j" by linarith
    then show ?thesis
    proof cases
      case 1
      then have "rat_of_int j \<le> rat_of_int k - 1" by (metis of_int_1 of_int_diff of_int_le_iff)
      then show ?thesis using k1 k2 by linarith
    next
      case 2
      then have "rat_of_int k + 1 \<le> rat_of_int j" by (metis of_int_1 of_int_add of_int_le_iff)
      then show ?thesis using k1 k2 by linarith
    qed
  qed
  have "\<bar>rat_of_int i * st - c\<bar> = \<bar>rat_of_int i - y\<bar> * st" for i
  proof -
    have "rat_of_int i * st - c = (rat_of_int i - y) * st" by (simp add: c algebra_simps)
    then show ?thesis using assms by (simp add: abs_mult)
  qed
  then show ?thesis
    using near assms by (simp add: k_def y_def mult_right_mono)
qed

lemma round_ties_up:
  assumes "0 < st" and "\<bar>rat_of_int j * st - c\<bar> = \<bar>rat_of_int \<lfloor>c / st + 1 / 2\<rfloor> * st - c\<bar>"
  shows "j \<le> \<lfloor>c / st + 1 / 2\<rfloor>"
proof (rule ccontr)
  define y where "y = c / st"
  define k where "k = \<lfloor>y + 1 / 2\<rfloor>"
  assume "\<not> j \<le> \<lfloor>c / st + 1 / 2\<rfloor>"
  then have "k + 1 \<le> j" by (simp add: k_def y_def)
  then have jk: "rat_of_int k + 1 \<le> rat_of_int j" by (metis of_int_1 of_int_add of_int_le_iff)
  have c: "c = y * st" using assms(1) by (simp add: y_def)
  have k1: "rat_of_int k \<le> y + 1 / 2" unfolding k_def by (rule of_int_floor_le)
  have k2: "y + 1 / 2 < rat_of_int k + 1" unfolding k_def by linarith
  have sc: "\<bar>rat_of_int i * st - c\<bar> = \<bar>rat_of_int i - y\<bar> * st" for i
  proof -
    have "rat_of_int i * st - c = (rat_of_int i - y) * st" by (simp add: c algebra_simps)
    then show ?thesis using assms(1) by (simp add: abs_mult)
  qed
  have "\<bar>rat_of_int j - y\<bar> * st = \<bar>rat_of_int k - y\<bar> * st"
    using assms(2) by (simp only: sc k_def y_def)
  then have "\<bar>rat_of_int j - y\<bar> = \<bar>rat_of_int k - y\<bar>" using assms(1) by simp
  then show False using jk k1 k2 by linarith
qed

text \<open>
  \<open>getXForValue\<close> alone does not clamp: between 0 and 100 on a track 100 wide the value
  150 gives the offset 150, and only \<open>getRoundedValue\<close> before it brings the offset to 100.
  Between 0 and 25 with step 10, \<open>getRoundedValue\<close> rounds 25 to 30, above the maximum,
  and the offset is 120 on a track 100 wide.
\<close>

theorem valueToOffset_counterexample:
  "getXForValue (configured 0 100 10) (rendered (configured 0 100 10) 100 24) (Num 150) = Num 150
   \<and> getXForValue (configured 0 100 10) (rendered (configured 0 100 10) 100 24)
        (getRoundedValue (configured 0 100 10) (Num 150)) = Num 100
   \<and> getRoundedValue (configured 0 25 10) (Num 25) = Num 30
   \<and> getXForValue (configured 0 25 10) (rendered (configured 0 25 10) 100 24)
        (getRoundedValue (configured 0 25 10) (Num 25)) = Num 120"
  by code_simp

text \<open>
  C6, amended: \<open>getRoundedValue\<close> clamps every finite value to the range and then, when
  the step is positive, rounds the clamped value to the nearest multiple of the step, a
  tie going to the larger multiple; the rounded value is within the range when the
  minimum and the maximum are multiples of the step; and for a minimum below the maximum
  and a finite track width the offset of the rounded value is a finite number.
  \<open>getXForValue\<close> itself neither clamps nor rounds: the offset of a value \<open>u\<close> not below
  the minimum is \<open>(u - minimum) / (maximum - minimum)\<close> times the track width, which is
  beyond the track when \<open>u\<close> is above the maximum.
\<close>

theorem valueToOffset_clamps_rounds:
  assumes mn: "minimumValue p = Num lo" and mx: "maximumValue p = Num hi"
    and stp: "step p = Num st" and lohi: "lo \<le> hi"
  shows "getValueInRange p (Num v) = Num (max lo (min hi v))
       \<and> getRoundedValue p (Num v) = getRoundedValue p (Num (max lo (min hi v)))
       \<and> (st \<le> 0 \<longrightarrow> getRoundedValue p (Num v) = Num (max lo (min hi v)))
       \<and> (0 < st \<longrightarrow>
            (\<exists>k. getRoundedValue p (Num v) = Num (rat_of_int k * st)
                \<and> (\<forall>j. \<bar>rat_of_int k * st - max lo (min hi v)\<bar>
                          \<le> \<bar>rat_of_int j * st - max lo (min hi v)\<bar>)
                \<and> (\<forall>j. \<bar>rat_of_int j * st - max lo (min hi v)\<bar>
                          = \<bar>rat_of_int k * st - max lo (min hi v)\<bar> \<longrightarrow> j \<le> k)))
       \<and> (0 < st \<and> (\<exists>a b. lo = rat_of_int a * st \<and> hi = rat_of_int b * st) \<longrightarrow>
            jle (minimumValue p) (getRoundedValue p (Num v))
            \<and> jle (getRoundedValue p (Num v)) (maximumValue p))
       \<and> (lo < hi \<and> isFinite (width (st_trackSize s)) \<longrightarrow>
            isFinite (getXForValue p s (getRoundedValue p (Num v))))
       \<and> (\<forall>w u. lo < hi \<and> width (st_trackSize s) = Num w \<and> lo \<le> u \<longrightarrow>
            getXForValue p s (Num u) = Num ((u - lo) / (hi - lo) * w))
       \<and> (\<forall>w u. lo < hi \<and> width (st_trackSize s) = Num w \<and> 0 < w \<and> hi < u \<longrightarrow>
            jgt (getXForValue p s (Num u)) (width (st_trackSize s)))"
proof -
  define c where "c = max lo (min hi v)"
  have cl: "(if v < lo then lo else if hi < v then hi else v) = c"
    using lohi by (auto simp: c_def max_def min_def)
  have cc: "(if c < lo then lo else if hi < c then hi else c) = c"
    using lohi by (auto simp: c_def max_def min_def)
  have inr: "getValueInRange p (Num v) = Num c"
    using getValueInRange_finite [OF mn mx, of v] by (simp only: cl)
  have rv: "getRoundedValue p (Num v) =
              (if 0 < st then Num (rat_of_int \<lfloor>c / st + 1 / 2\<rfloor> * st) else Num c)"
    using getRoundedValue_finite [OF mn mx stp, of v] by (simp only: cl Let_def)
  have rc: "getRoundedValue p (Num c) =
              (if 0 < st then Num (rat_of_int \<lfloor>c / st + 1 / 2\<rfloor> * st) else Num c)"
    using getRoundedValue_finite [OF mn mx stp, of c] by (simp only: cc Let_def)
  have fin: "\<exists>q. getRoundedValue p (Num v) = Num q" by (simp add: rv)
  have near: "\<exists>k. getRoundedValue p (Num v) = Num (rat_of_int k * st)
                \<and> (\<forall>j. \<bar>rat_of_int k * st - c\<bar> \<le> \<bar>rat_of_int j * st - c\<bar>)
                \<and> (\<forall>j. \<bar>rat_of_int j * st - c\<bar> = \<bar>rat_of_int k * st - c\<bar> \<longrightarrow> j \<le> k)"
    if "0 < st"
  proof (intro exI [of _ "\<lfloor>c / st + 1 / 2\<rfloor>"] conjI allI impI)
    show "getRoundedValue p (Num v) = Num (rat_of_int \<lfloor>c / st + 1 / 2\<rfloor> * st)"
      using that by (simp add: rv)
    show "\<bar>rat_of_int \<lfloor>c / st + 1 / 2\<rfloor> * st - c\<bar> \<le> \<bar>rat_of_int j * st - c\<bar>" for j
      by (rule round_nearest [OF that])
    show "j \<le> \<lfloor>c / st + 1 / 2\<rfloor>"
      if "\<bar>rat_of_int j * st - c\<bar> = \<bar>rat_of_int \<lfloor>c / st + 1 / 2\<rfloor> * st - c\<bar>" for j
      using \<open>0 < st\<close> that by (rule round_ties_up)
  qed
  have within: "jle (minimumValue p) (getRoundedValue p (Num v))
            \<and> jle (getRoundedValue p (Num v)) (maximumValue p)"
    if st: "0 < st" and g: "lo = rat_of_int a * st" "hi = rat_of_int b * st" for a b
  proof -
    have "lo \<le> c" "c \<le> hi" using lohi by (simp_all add: c_def)
    then have "a \<le> \<lfloor>c / st + 1 / 2\<rfloor> \<and> \<lfloor>c / st + 1 / 2\<rfloor> \<le> b"
      using round_bounds [of a st c b] st g by simp
    then have "rat_of_int a * st \<le> rat_of_int \<lfloor>c / st + 1 / 2\<rfloor> * st"
      "rat_of_int \<lfloor>c / st + 1 / 2\<rfloor> * st \<le> rat_of_int b * st"
      using st by (simp_all add: mult_right_mono)
    then show ?thesis using st by (simp add: rv mn mx jle_Num g)
  qed
  have total: "isFinite (getXForValue p s (getRoundedValue p (Num v)))"
    if lt: "lo < hi" and fw: "isFinite (width (st_trackSize s))"
  proof -
    obtain q where q: "getRoundedValue p (Num v) = Num q" using fin by blast
    obtain w where w: "width (st_trackSize s) = Num w"
      using fw by (cases "width (st_trackSize s)") simp_all
    show ?thesis using getXForValue_finite [OF mn mx _ w, of q] lt by (simp add: q)
  qed
  have lin: "getXForValue p s (Num u) = Num ((u - lo) / (hi - lo) * w)"
    if lt: "lo < hi" and w: "width (st_trackSize s) = Num w" and u: "lo \<le> u" for w u
    using getXForValue_finite [OF mn mx _ w, of u] lt u by simp
  have beyond: "jgt (getXForValue p s (Num u)) (width (st_trackSize s))"
    if lt: "lo < hi" and w: "width (st_trackSize s) = Num w" and w0: "0 < w" and u: "hi < u"
    for w u
  proof -
    have "1 < (u - lo) / (hi - lo)" using lt u by simp
    then have "1 * w < (u - lo) / (hi - lo) * w" using w0 by (rule mult_strict_right_mono)
    then show ?thesis using lin [OF lt w] lt u by (simp add: w jgt_def)
  qed
  show ?thesis
    unfolding c_def [symmetric]
    using inr rv rc near within total lin beyond
    by (intro conjI impI allI) (auto simp del: isFinite.simps)
qed

theorem valueToOffset_clamps_rounds_witness:
  "getValueInRange (configured 0 100 10) (Num 150) = Num (max 0 (min 100 150))
   \<and> getRoundedValue (configured 0 100 10) (Num 150)
       = getRoundedValue (configured 0 100 10) (Num (max 0 (min 100 150)))
   \<and> jle (getRoundedValue (configured 0 100 10) (Num 150)) (maximumValue (configured 0 100 10))
   \<and> isFinite (getXForValue (configured 0 100 10) (rendered (configured 0 100 10) 300 24)
        (getRoundedValue (configured 0 100 10) (Num 150)))
   \<and> jgt (getXForValue (configured 0 100 10) (rendered (configured 0 100 10) 300 24) (Num 150))
        (width (st_trackSize (rendered (configured 0 100 10) 300 24)))"
proof -
  have a: "minimumValue (configured 0 100 10) = Num 0" by code_simp
  have b: "maximumValue (configured 0 100 10) = Num 100" by code_simp
  have c: "step (configured 0 100 10) = Num 10" by code_simp
  have d: "isFinite (width (st_trackSize (rendered (configured 0 100 10) 300 24)))"
    by code_simp
  have d': "width (st_trackSize (rendered (configured 0 100 10) 300 24)) = Num 300"
    by code_simp
  have e: "\<exists>a b. (0::rat) = rat_of_int a * 10 \<and> (100::rat) = rat_of_int b * 10"
    by (rule exI [of _ 0], rule exI [of _ 10]) simp
  have f: "(0::rat) \<le> 100" "(0::rat) < 10" "(0::rat) < 100" "(0::rat) < 300"
    "(100::rat) < 150" by simp_all
  from valueToOffset_clamps_rounds [OF a b c f(1), of 150 "rendered (configured 0 100 10) 300 24"]
    d d' e f
  show ?thesis by blast
qed

section \<open>Conversions in a changed state\<close>

lemma getValueForX_update [simp]:
  "getValueForX p (pos_x_update f s) = getValueForX p s"
  "getValueForX p (pos_x_min_update f s) = getValueForX p s"
  "getValueForX p (lastDx_update f s) = getValueForX p s"
  "getValueForX p (lastValue_update f s) = getValueForX p s"
  "getValueForX p (lastMinValue_update f s) = getValueForX p s"
  "getValueForX p (calls_update g s) = getValueForX p s"
  "getValueForX p (thumbStyles_left_update h s) = getValueForX p s"
  "getValueForX p (minThumbStyles_left_update h s) = getValueForX p s"
  "getValueForX p (minTrackStyles_width_update h s) = getValueForX p s"
  "getValueForX p (minTrackStyles_left_update h s) = getValueForX p s"
  "getValueForX p (activeThumbRef_update k s) = getValueForX p s"
  by (rule ext, simp add: getValueForX_def)+

lemma getXForValue_update [simp]:
  "getXForValue p (pos_x_update f s) = getXForValue p s"
  "getXForValue p (pos_x_min_update f s) = getXForValue p s"
  "getXForValue p (lastDx_update f s) = getXForValue p s"
  "getXForValue p (lastValue_update f s) = getXForValue p s"
  "getXForValue p (lastMinValue_update f s) = getXForValue p s"
  "getXForValue p (calls_update g s) = getXForValue p s"
  "getXForValue p (thumbStyles_left_update h s) = getXForValue p s"
  "getXForValue p (minThumbStyles_left_update h s) = getXForValue p s"
  "getXForValue p (minTrackStyles_width_update h s) = getXForValue p s"
  "getXForValue p (minTrackStyles_left_update h s) = getXForValue p s"
  "getXForValue p (activeThumbRef_update k s) = getXForValue p s"
  by (rule ext, simp add: getXForValue_def)+

lemma getValueForX_moveTo_single:
  "\<not> useRange p \<Longrightarrow> getValueForX p (moveTo p xx s) = getValueForX p s"
  by (rule getValueForX_cong) (simp_all add: moveTo_single_fields)

section \<open>Accessibility actions\<close>

text \<open>
  C5: an increment away from the maximum should add exactly one step to the value. The
  code does not always: between 0 and 100 with step 10, on a track 100 wide with a thumb
  24 wide, a drag to the offset 30 and its release leave the value 30, stored and read
  from the thumb's offset. The increment announces 40 and moves the thumb to the offset
  of 40, but it stores what \<open>getValueForX\<close> reads there, which is 50, and calls
  \<open>onValueChange\<close> with 50.
\<close>

theorem accessibility_increment_adds_two_steps:
  "lastValue (run (configured 0 100 10) [Grant, Move (Num 30), Release]
      (rendered (configured 0 100 10) 100 24)) = Num 30
   \<and> getValueForX (configured 0 100 10)
       (run (configured 0 100 10) [Grant, Move (Num 30), Release]
          (rendered (configured 0 100 10) 100 24))
       (pos_x (run (configured 0 100 10) [Grant, Move (Num 30), Release]
          (rendered (configured 0 100 10) 100 24))) = Num 30
   \<and> calls (onAccessibilityAction (configured 0 100 10) ''increment''
       (run (configured 0 100 10) [Grant, Move (Num 30), Release]
          (rendered (configured 0 100 10) 100 24)))
     = calls (run (configured 0 100 10) [Grant, Move (Num 30), Release]
          (rendered (configured 0 100 10) 100 24))
       @ [OnValueChange (Num 50), Announce (Num 40)]
   \<and> lastValue (onAccessibilityAction (configured 0 100 10) ''increment''
       (run (configured 0 100 10) [Grant, Move (Num 30), Release]
          (rendered (configured 0 100 10) 100 24))) = Num 50
   \<and> pos_x (onAccessibilityAction (configured 0 100 10) ''increment''
       (run (configured 0 100 10) [Grant, Move (Num 30), Release]
          (rendered (configured 0 100 10) 100 24)))
     = getXForValue (configured 0 100 10) (rendered (configured 0 100 10) 100 24) (Num 40)
   \<and> thumbStyles_left (onAccessibilityAction (configured 0 100 10) ''increment''
       (run (configured 0 100 10) [Grant, Move (Num 30), Release]
          (rendered (configured 0 100 10) 100 24)))
     = thumbStyles_left (moveTo (configured 0 100 10)
         (getXForValue (configured 0 100 10) (rendered (configured 0 100 10) 100 24) (Num 40))
         (rendered (configured 0 100 10) 100 24))"
  by code_simp

text \<open>
  C10: with the step 0 an accessibility action computes a new value equal to the current
  one, and should leave the value as it is. The code does not: between 0 and 100 without
  step, on a track 100 wide with a thumb 24 wide, a drag to the offset 44 leaves the value
  50, stored and read from the thumb's offset. An increment, and a decrement as well,
  announces 50 and moves the thumb to the offset of 50, but it stores what
  \<open>getValueForX\<close> reads there, which is 625/11, and calls \<open>onValueChange\<close> with 625/11.
\<close>

theorem accessibility_zero_step_changes_value:
  "lastValue (run (configured 0 100 0) [Grant, Move (Num 44), Release]
      (rendered (configured 0 100 0) 100 24)) = Num 50
   \<and> getValueForX (configured 0 100 0)
       (run (configured 0 100 0) [Grant, Move (Num 44), Release]
          (rendered (configured 0 100 0) 100 24))
       (pos_x (run (configured 0 100 0) [Grant, Move (Num 44), Release]
          (rendered (configured 0 100 0) 100 24))) = Num 50
   \<and> calls (onAccessibilityAction (configured 0 100 0) ''increment''
       (run (configured 0 100 0) [Grant, Move (Num 44), Release]
          (rendered (configured 0 100 0) 100 24)))
     = calls (run (configured 0 100 0) [Grant, Move (Num 44), Release]
          (rendered (configured 0 100 0) 100 24))
       @ [OnValueChange (Num (625 / 11)), Announce (Num 50)]
   \<and> lastValue (onAccessibilityAction (configured 0 100 0) ''increment''
       (run (configured 0 100 0) [Grant, Move (Num 44), Release]
          (rendered (configured 0 100 0) 100 24))) = Num (625 / 11)
   \<and> calls (onAccessibilityAction (configured 0 100 0) ''decrement''
       (run (configured 0 100 0) [Grant, Move (Num 44), Release]
          (rendered (configured 0 100 0) 100 24)))
     = calls (run (configured 0 100 0) [Grant, Move (Num 44), Release]
          (rendered (configured 0 100 0) 100 24))
       @ [OnValueChange (Num (625 / 11)), Announce (Num 50)]
   \<and> lastValue (onAccessibilityAction (configured 0 100 0) ''decrement''
       (run (configured 0 100 0) [Grant, Move (Num 44), Release]
          (rendered (configured 0 100 0) 100 24))) = Num (625 / 11)"
  by code_simp

section \<open>Releasing a drag\<close>

lemma update_single:
  assumes "\<not> useRange p" "isDefaultThumbActive s"
    and "x2 = jmax (jmin (jadd (pos_x s) dx) (width (st_trackSize s))) (Num 0)"
  shows "pos_x (update p dx s) = x2"
    and "lastValue (update p dx s) = getValueForX p s x2"
    and "calls (update p dx s) = calls s @ [OnValueChange (getValueForX p s x2)]"
    and "st_trackSize (update p dx s) = st_trackSize s"
    and "initialThumbSize (update p dx s) = initialThumbSize s"
    and "activeThumbRef (update p dx s) = activeThumbRef s"
  using assms(2) unfolding assms(3)
  by (simp_all add: update_def Let_def get_x_def set_x_def updateValue_def onValueChange_def
      moveTo_single_fields [OF assms(1)] getValueForX_moveTo_single [OF assms(1)] assms(1))

lemma bounceToStep_single:
  assumes "\<not> useRange p" "isDefaultThumbActive s" "jgt (step p) (Num 0)"
  shows "pos_x (bounceToStep p s)
           = getXForValue p s (getRoundedValue p (getValueForX p s (pos_x s)))"
    and "lastValue (bounceToStep p s) = lastValue s"
    and "calls (bounceToStep p s) = calls s"
  using assms(2,3)
  by (simp_all add: bounceToStep_def Let_def get_x_def set_x_def
      moveTo_single_fields [OF assms(1)])

text \<open>
  Between 0 and 100 with step 10, on a track 300 wide with a thumb 24 wide, the drag to
  the offset of the value 23 calls \<open>onValueChange\<close> with 20, and the release adds
  \<open>onSeekEnd\<close> and nothing else. On a track 100 wide the release at the offset of the
  value 23 leaves the thumb at the offset of the value 30.
\<close>

theorem release_counterexample:
  "pos_x (run (configured 0 100 10) [Grant, Move (Num 69)] (rendered (configured 0 100 10) 300 24))
     = getXForValue (configured 0 100 10) (rendered (configured 0 100 10) 300 24) (Num 23)
   \<and> calls (run (configured 0 100 10) [Grant, Move (Num 69)]
        (rendered (configured 0 100 10) 300 24)) = [OnSeekStart, OnValueChange (Num 20)]
   \<and> calls (run (configured 0 100 10) [Grant, Move (Num 69), Release]
        (rendered (configured 0 100 10) 300 24))
       = [OnSeekStart, OnValueChange (Num 20), OnSeekEnd]
   \<and> pos_x (run (configured 0 100 10) [Grant, Move (Num 23)] (rendered (configured 0 100 10) 100 24))
     = getXForValue (configured 0 100 10) (rendered (configured 0 100 10) 100 24) (Num 23)
   \<and> pos_x (run (configured 0 100 10) [Grant, Move (Num 23), Release]
        (rendered (configured 0 100 10) 100 24))
     = getXForValue (configured 0 100 10) (rendered (configured 0 100 10) 100 24) (Num 30)"
  by code_simp

text \<open>
  C4, amended: in a single-thumb slider with step 10 between 0 and 100, on a track more
  than 6.25 times as wide as the thumb, the move of the gesture that brings the thumb to
  the offset of the value 23 calls \<open>onValueChange\<close> with 20 and stores 20; the release
  then puts the thumb at the offset of the value 20 and calls \<open>onSeekEnd\<close>, and it does
  not call \<open>onValueChange\<close>.
\<close>

theorem release_snaps_to_step:
  assumes mn: "minimumValue p = Num 0" and mx: "maximumValue p = Num 100"
    and stp: "step p = Num 10"
    and tw: "width (st_trackSize s) = Num w" and th: "width (initialThumbSize s) = Num t"
    and geo: "0 \<le> t" "25 * t < 4 * w"
    and single: "\<not> useRange p" and en: "\<not> disabled p" and act: "isDefaultThumbActive s"
    and px: "pos_x s = Num x0" and ld: "lastDx s = Num l"
    and drag: "x0 + (if isRTL p \<and> \<not> get_disableRTL p then - g else g) - l = 23 / 100 * w"
  shows "pos_x (handlePanResponderMove p (Num g) s) = getXForValue p s (Num 23)
       \<and> calls (handlePanResponderMove p (Num g) s) = calls s @ [OnValueChange (Num 20)]
       \<and> lastValue (handlePanResponderMove p (Num g) s) = Num 20
       \<and> pos_x (handlePanResponderEnd p (handlePanResponderMove p (Num g) s))
           = getXForValue p s (Num 20)
       \<and> calls (handlePanResponderEnd p (handlePanResponderMove p (Num g) s))
           = calls s @ [OnValueChange (Num 20), OnSeekEnd]
       \<and> lastValue (handlePanResponderEnd p (handlePanResponderMove p (Num g) s)) = Num 20"
proof -
  define d where "d = w - t / 2"
  define xd where "xd = 23 / 100 * w"
  define xe where "xe = w / 5"
  define s1 where "s1 = handlePanResponderMove p (Num g) s"
  define u where "u = update p (jsub (jmul (Num g)
      (if isRTL p \<and> \<not> get_disableRTL p then Num (- 1) else Num 1)) (lastDx s)) s"
  have w: "0 < w" using geo by simp
  have d: "0 < d" "d \<le> w" using geo by (simp_all add: d_def)
  have x23: "getXForValue p s (Num 23) = Num xd"
    using getXForValue_finite [OF mn mx _ tw, of 23] by (simp add: xd_def)
  have x20: "getXForValue p s (Num 20) = Num xe"
    using getXForValue_finite [OF mn mx _ tw, of 20] by (simp add: xe_def)
  have q1: "1 \<le> w / d" using d by (simp add: pos_le_divide_eq)
  have "23 * w < 25 * d" using geo by (simp add: d_def)
  then have q2: "23 * (w / d) < 25" using d by (simp add: pos_divide_less_eq)
  have z: "23 / 100 * w / d * 100 / 10 + 1 / 2 = 23 / 10 * (w / d) + 1 / 2" by simp
  have fl: "\<lfloor>23 / 100 * w / d * 100 / 10 + 1 / 2\<rfloor> = 2"
    unfolding z using q1 q2 by (simp add: floor_eq_iff)
  have v20: "getValueForX p s (Num xd) = Num 20"
    using getValueForX_finite [OF mn mx stp tw th, of "23 / 100 * w"] d fl
    by (simp add: d_def xd_def)
  have dx: "jadd (pos_x s) (jsub (jmul (Num g)
      (if isRTL p \<and> \<not> get_disableRTL p then Num (- 1) else Num 1)) (lastDx s))
      = Num xd"
  proof -
    define c where "c = (isRTL p \<and> \<not> get_disableRTL p)"
    have "x0 + (if c then - g else g) - l = 23 / 100 * w" using drag by (simp only: c_def)
    then have "jadd (Num x0) (jsub (jmul (Num g) (if c then Num (- 1) else Num 1)) (Num l))
      = Num (23 / 100 * w)"
      by (cases c) (simp_all add: jsub_Num)
    then show ?thesis by (simp only: c_def px ld xd_def)
  qed
  have x2: "jmax (jmin (jadd (pos_x s) (jsub (jmul (Num g)
      (if isRTL p \<and> \<not> get_disableRTL p then Num (- 1) else Num 1)) (lastDx s)))
      (width (st_trackSize s))) (Num 0) = Num xd"
    using w by (simp only: dx tw jmin_Num jmax_Num) (simp add: max_def min_def xd_def)
  note up = update_single [OF single act x2 [symmetric], folded u_def]
  have s1: "s1 = u\<lparr>lastDx := Num g'\<rparr>" if "g' = (if isRTL p \<and> \<not> get_disableRTL p then - g else g)" for g'
    using en that by (simp add: s1_def handlePanResponderMove_def Let_def u_def)
  then obtain g' where s1': "s1 = u\<lparr>lastDx := Num g'\<rparr>" by blast
  have m1: "pos_x s1 = Num xd" by (simp add: s1' up)
  have m2: "calls s1 = calls s @ [OnValueChange (Num 20)]" by (simp add: s1' up v20)
  have m3: "lastValue s1 = Num 20" by (simp add: s1' up v20)
  have act1: "isDefaultThumbActive s1"
    using act by (simp add: s1' isDefaultThumbActive_def up)
  have gv: "getValueForX p s1 = getValueForX p s"
    by (rule getValueForX_cong) (simp_all add: s1' up)
  have gx: "getXForValue p s1 = getXForValue p s"
    by (rule getXForValue_cong) (simp_all add: s1' up)
  have rd: "getRoundedValue p (Num 20) = Num 20"
    using getRoundedValue_finite [OF mn mx stp, of 20] round_of_int [of 2] by (simp add: Let_def)
  have pos: "jgt (step p) (Num 0)" by (simp add: stp jgt_def)
  note bs = bounceToStep_single [OF single act1 pos]
  have e1: "pos_x (handlePanResponderEnd p s1) = Num xe"
    by (simp add: handlePanResponderEnd_def onSeekEnd_def bs gv gx m1 v20 rd x20)
  have e2: "calls (handlePanResponderEnd p s1) = calls s @ [OnValueChange (Num 20), OnSeekEnd]"
    by (simp add: handlePanResponderEnd_def onSeekEnd_def bs m2)
  have e3: "lastValue (handlePanResponderEnd p s1) = Num 20"
    by (simp add: handlePanResponderEnd_def onSeekEnd_def bs m3)
  show ?thesis
    unfolding s1_def [symmetric] x23 x20 using m1 m2 m3 e1 e2 e3 by blast
qed

theorem release_snaps_to_step_witness:
  "pos_x (handlePanResponderMove (configured 0 100 10) (Num 69)
      (handlePanResponderGrant (configured 0 100 10) (rendered (configured 0 100 10) 300 24)))
     = getXForValue (configured 0 100 10)
         (handlePanResponderGrant (configured 0 100 10) (rendered (configured 0 100 10) 300 24))
         (Num 23)
   \<and> pos_x (handlePanResponderEnd (configured 0 100 10)
       (handlePanResponderMove (configured 0 100 10) (Num 69)
         (handlePanResponderGrant (configured 0 100 10) (rendered (configured 0 100 10) 300 24))))
     = getXForValue (configured 0 100 10)
         (handlePanResponderGrant (configured 0 100 10) (rendered (configured 0 100 10) 300 24))
         (Num 20)
   \<and> calls (handlePanResponderEnd (configured 0 100 10)
       (handlePanResponderMove (configured 0 100 10) (Num 69)
         (handlePanResponderGrant (configured 0 100 10) (rendered (configured 0 100 10) 300 24))))
     = calls (handlePanResponderGrant (configured 0 100 10)
                (rendered (configured 0 100 10) 300 24))
       @ [OnValueChange (Num 20), OnSeekEnd]"
proof -
  let ?P = "configured 0 100 10"
  let ?S = "handlePanResponderGrant (configured 0 100 10) (rendered (configured 0 100 10) 300 24)"
  have a: "minimumValue ?P = Num 0" by code_simp
  have b: "maximumValue ?P = Num 100" by code_simp
  have c: "step ?P = Num 10" by code_simp
  have d: "width (st_trackSize ?S) = Num 300" by code_simp
  have e: "width (initialThumbSize ?S) = Num 24" by code_simp
  have f: "(0::rat) \<le> 24" "(25::rat) * 24 < 4 * 300" by simp_all
  have g: "\<not> useRange ?P" by code_simp
  have h: "\<not> disabled ?P" by code_simp
  have i: "isDefaultThumbActive ?S" by code_simp
  have j: "pos_x ?S = Num 0" by code_simp
  have k: "lastDx ?S = Num 0" by code_simp
  have l: "0 + (if isRTL ?P \<and> \<not> get_disableRTL ?P then - 69 else 69) - 0
             = (23::rat) / 100 * 300" by code_simp
  from release_snaps_to_step [OF a b c d e f g h i j k l] show ?thesis by blast
qed

section \<open>Range mode: the thumbs do not cross\<close>

text \<open>
  C2: in range mode the thumbs should never cross, and a move that would make them cross
  should change nothing. The code keeps neither. In the range slider from 0 to 100 with
  the thumbs starting at 40 and 60, on a track 300 wide with a thumb 24 wide,
  \<open>componentDidUpdate\<close> sets \<open>_x_min\<close> to 120 after the layout but does not move the
  minimum thumb, whose \<open>left\<close> stays 0. A drag of the thumb by -130 is then accepted,
  because \<open>moveTo\<close> compares with that \<open>left\<close>: \<open>_x\<close> is 50, below \<open>_x_min\<close>, and
  \<open>onRangeChange\<close> is called with the minimum 40 and the maximum 625/36. And once the
  minimum thumb has been moved to its offset, a drag of the thumb by -90 is rejected by
  \<open>moveTo\<close>, the styles and the calls staying as they were, but \<open>update\<close> has already
  stored the offset 90 in \<open>_x\<close>, below \<open>_x_min\<close>.
\<close>

theorem thumbs_cross_in_range_mode:
  "pos_x_min (rendered rangeProps 300 24) = Num 120
   \<and> minThumbStyles_left (rendered rangeProps 300 24) = Some (Num 0)
   \<and> pos_x (run rangeProps [Grant, Move (Num (- 130))] (rendered rangeProps 300 24)) = Num 50
   \<and> pos_x_min (run rangeProps [Grant, Move (Num (- 130))] (rendered rangeProps 300 24))
       = Num 120
   \<and> lastValue (run rangeProps [Grant, Move (Num (- 130))] (rendered rangeProps 300 24))
       = Num (625 / 36)
   \<and> lastMinValue (run rangeProps [Grant, Move (Num (- 130))] (rendered rangeProps 300 24))
       = Num 40
   \<and> last (calls (run rangeProps [Grant, Move (Num (- 130))] (rendered rangeProps 300 24)))
       = OnRangeChange (Num 40) (Num (625 / 36))
   \<and> pos_x (run rangeProps [MinTouchStart, Grant, Move (Num 0), Release, TouchStart, Grant]
            (rendered rangeProps 300 24)) = Num 180
   \<and> pos_x (perform rangeProps (Move (Num (- 90)))
        (run rangeProps [MinTouchStart, Grant, Move (Num 0), Release, TouchStart, Grant]
            (rendered rangeProps 300 24))) = Num 90
   \<and> pos_x_min (perform rangeProps (Move (Num (- 90)))
        (run rangeProps [MinTouchStart, Grant, Move (Num 0), Release, TouchStart, Grant]
            (rendered rangeProps 300 24))) = Num 120
   \<and> thumbStyles_left (perform rangeProps (Move (Num (- 90)))
        (run rangeProps [MinTouchStart, Grant, Move (Num 0), Release, TouchStart, Grant]
            (rendered rangeProps 300 24)))
      = thumbStyles_left
        (run rangeProps [MinTouchStart, Grant, Move (Num 0), Release, TouchStart, Grant]
            (rendered rangeProps 300 24))
   \<and> calls (perform rangeProps (Move (Num (- 90)))
        (run rangeProps [MinTouchStart, Grant, Move (Num 0), Release, TouchStart, Grant]
            (rendered rangeProps 300 24)))
      = calls
        (run rangeProps [MinTouchStart, Grant, Move (Num 0), Release, TouchStart, Grant]
            (rendered rangeProps 300 24))"
  by code_simp

end
